theory Spec2Isabelle
  imports Main "HOL-Library.Sublist"
begin

section \<open>Strings\<close>

text \<open>
  A Python \<open>str\<close> is a sequence of Unicode code points, and the program's messages are
  Cyrillic, so a string is modelled as the list of its code points. \<open>ascii\<close> turns an
  ASCII literal into such a list.
\<close>

type_synonym str = "nat list"

definition ascii :: "string \<Rightarrow> str" where
  "ascii s = map of_char s"

text \<open>\<open>str(n)\<close> for a non-negative and for an arbitrary integer: decimal digits.\<close>

fun str_nat :: "nat \<Rightarrow> str" where
  "str_nat n = (if n < 10 then [48 + n] else str_nat (n div 10) @ [48 + n mod 10])"

declare str_nat.simps [simp del]

definition str_int :: "int \<Rightarrow> str" where
  "str_int i = (if i < 0 then 45 # str_nat (nat (- i)) else str_nat (nat i))"

text \<open>
  \<open>c.isspace()\<close> for one character: the code points whose general category is \<open>Zs\<close> or
  whose bidirectional class is \<open>WS\<close>, \<open>B\<close> or \<open>S\<close>.
\<close>

definition unicode_isspace :: "nat \<Rightarrow> bool" where
  "unicode_isspace c =
     ((9 \<le> c \<and> c \<le> 13) \<or> (28 \<le> c \<and> c \<le> 32) \<or> c = 133 \<or> c = 160 \<or> c = 5760
      \<or> (8192 \<le> c \<and> c \<le> 8202) \<or> c = 8232 \<or> c = 8233 \<or> c = 8239 \<or> c = 8287
      \<or> c = 12288)"

text \<open>\<open>s.isspace()\<close>: at least one character, and all of them whitespace.\<close>

definition isspace :: "str \<Rightarrow> bool" where
  "isspace s = (s \<noteq> [] \<and> list_all unicode_isspace s)"

text \<open>
  \<open>s.split(sep)\<close> with an explicit separator: the pieces between the occurrences of
  \<open>sep\<close>, found from the left and not overlapping. \<open>split_from sep cur s\<close> scans \<open>s\<close>
  with \<open>cur\<close> the piece collected so far. An empty separator raises
  \<open>ValueError("empty separator")\<close>, which \<open>py_split\<close> returns as \<open>None\<close>.
\<close>

fun split_from :: "str \<Rightarrow> str \<Rightarrow> str \<Rightarrow> str list" where
  "split_from sep cur [] = [cur]"
| "split_from sep cur (c # cs) =
     (if sep \<noteq> [] \<and> prefix sep (c # cs)
      then cur # split_from sep [] (drop (length sep) (c # cs))
      else split_from sep (cur @ [c]) cs)"

definition py_split :: "str \<Rightarrow> str \<Rightarrow> str list option" where
  "py_split s sep = (if sep = [] then None else Some (split_from sep [] s))"

text \<open>\<open>sep.join(xs)\<close>.\<close>

fun join :: "str \<Rightarrow> str list \<Rightarrow> str" where
  "join sep [] = []"
| "join sep [x] = x"
| "join sep (x # y # ys) = x @ sep @ join sep (y # ys)"

text \<open>\<open>s.startswith(p)\<close>, \<open>s.endswith(p)\<close> and \<open>p in s\<close>.\<close>

definition startswith :: "str \<Rightarrow> str \<Rightarrow> bool" where
  "startswith s p = prefix p s"

definition endswith :: "str \<Rightarrow> str \<Rightarrow> bool" where
  "endswith s p = prefix (rev p) (rev s)"

fun contains :: "str \<Rightarrow> str \<Rightarrow> bool" where
  "contains [] p = (p = [])"
| "contains (c # cs) p = (prefix p (c # cs) \<or> contains cs p)"

text \<open>
  \<open>s.replace(old, new)\<close>: every occurrence of \<open>old\<close>, found from the left and not
  overlapping, becomes \<open>new\<close>; an empty \<open>old\<close> matches before every character and at
  the end.
\<close>

fun replace_from :: "str \<Rightarrow> str \<Rightarrow> str \<Rightarrow> str" where
  "replace_from old new [] = []"
| "replace_from old new (c # cs) =
     (if old \<noteq> [] \<and> prefix old (c # cs)
      then new @ replace_from old new (drop (length old) (c # cs))
      else c # replace_from old new cs)"

definition replace :: "str \<Rightarrow> str \<Rightarrow> str \<Rightarrow> str" where
  "replace s old new =
     (if old = [] then new @ concat (map (\<lambda>c. c # new) s) else replace_from old new s)"

section \<open>Exceptions\<close>

text \<open>
  What a validator may raise, each with its \<open>str(e)\<close>: the program's own
  \<open>ValidationError\<close>, a \<open>ValueError\<close>, or an exception of any other class.
\<close>

datatype exn = ValidationError str | ValueError str | Exception str

fun str_exn :: "exn \<Rightarrow> str" where
  "str_exn (ValidationError m) = m"
| "str_exn (ValueError m) = m"
| "str_exn (Exception m) = m"

text \<open>A validator returns \<open>None\<close> when it returns normally, and the exception it raises otherwise.\<close>

type_synonym validator = "str \<Rightarrow> exn option"

section \<open>Validators\<close>

text \<open>The message of \<open>not_empty\<close> (in English: the value must not be empty).\<close>

definition msg_not_empty :: str where
  "msg_not_empty =
     [1047, 1085, 1072, 1095, 1077, 1085, 1080, 1077, 32, 1085, 1077, 32, 1076, 1086, 1083,
      1078, 1085, 1086, 32, 1073, 1099, 1090, 1100, 32, 1087, 1091, 1089, 1090, 1099, 1084, 46]"

definition not_empty :: validator where
  "not_empty v =
     (if length v = 0 \<or> isspace v then Some (ValidationError msg_not_empty) else None)"

text \<open>
  The message of \<open>list_len_validator\<close> (the number of elements must equal ...; now it is
  ...): the text before the required length, and the text between it and the actual one.
\<close>

definition msg_len_must_equal :: str where
  "msg_len_must_equal =
     [1050, 1086, 1083, 1080, 1095, 1077, 1089, 1090, 1074, 1086, 32, 1101, 1083, 1077, 1084,
      1077, 1085, 1090, 1086, 1074, 32, 1076, 1086, 1083, 1078, 1085, 1086, 32, 1088, 1072,
      1074, 1085, 1103, 1090, 1100, 1089, 1103, 32]"

definition msg_len_now :: str where
  "msg_len_now = [46, 32, 1057, 1077, 1081, 1095, 1072, 1089, 32]"

definition list_len_validator :: "int \<Rightarrow> str \<Rightarrow> validator" where
  "list_len_validator len sep v =
     (case py_split v sep of
        None \<Rightarrow> Some (ValueError (ascii ''empty separator''))
      | Some parts \<Rightarrow>
          if int (length parts) \<noteq> len
          then Some (ValidationError
                 (msg_len_must_equal @ str_int len @ msg_len_now
                  @ str_nat (length parts) @ ascii ''.''))
          else None)"

text \<open>
  The message of \<open>list_elems_validator\<close> for one failure (error for element '...' number
  ...: ...).
\<close>

definition msg_elem_error :: str where
  "msg_elem_error =
     [1054, 1096, 1080, 1073, 1082, 1072, 32, 1076, 1083, 1103, 32, 1101, 1083, 1077, 1084,
      1077, 1085, 1090, 1072, 32, 39]"

definition msg_elem_number :: str where
  "msg_elem_number = [39, 32, 1087, 1086, 1076, 32, 1085, 1086, 1084, 1077, 1088, 1086, 1084, 32]"

definition elem_error :: "str \<Rightarrow> nat \<Rightarrow> exn \<Rightarrow> str" where
  "elem_error elem i e =
     msg_elem_error @ elem @ msg_elem_number @ str_nat i @ ascii '': '' @ str_exn e"

text \<open>The inner loop: every validator on one element, any exception caught and recorded.\<close>

fun validate_elem :: "validator list \<Rightarrow> nat \<Rightarrow> str \<Rightarrow> str list \<Rightarrow> str list" where
  "validate_elem [] i elem errors = errors"
| "validate_elem (validator # rest) i elem errors =
     (case validator elem of
        None \<Rightarrow> validate_elem rest i elem errors
      | Some e \<Rightarrow> validate_elem rest i elem (errors @ [elem_error elem i e]))"

text \<open>The outer loop over \<open>enumerate(value.split(sep))\<close>.\<close>

fun validate_elems :: "validator list \<Rightarrow> nat \<Rightarrow> str list \<Rightarrow> str list \<Rightarrow> str list" where
  "validate_elems elem_validators i [] errors = errors"
| "validate_elems elem_validators i (elem # elems) errors =
     validate_elems elem_validators (Suc i) elems (validate_elem elem_validators i elem errors)"

definition list_elems_validator :: "str \<Rightarrow> validator list \<Rightarrow> validator" where
  "list_elems_validator sep elem_validators v =
     (case py_split v sep of
        None \<Rightarrow> Some (ValueError (ascii ''empty separator''))
      | Some parts \<Rightarrow>
          (let errors = validate_elems elem_validators 0 parts []
           in if length errors \<noteq> 0 then Some (ValidationError (join [10] errors)) else None))"

subsection \<open>The built-in \<open>float\<close> on a string\<close>

text \<open>
  \<open>only_digit_validator\<close> calls \<open>float(value)\<close> and looks only at whether it raises
  \<open>ValueError\<close>, so the model of \<open>float\<close> is the set of strings it accepts. The
  interpreter first maps every non-ASCII whitespace character to a space and every
  non-ASCII decimal digit to its ASCII digit; its table of decimal digits is the
  parameter \<open>todecimal\<close>. It then strips ASCII whitespace from both ends, allows single
  underscores between digits, and reads a decimal literal, \<open>inf\<close>, \<open>infinity\<close> or \<open>nan\<close>
  after an optional sign.
\<close>

definition ascii_digit :: "nat \<Rightarrow> bool" where
  "ascii_digit c = (48 \<le> c \<and> c \<le> 57)"

definition ascii_isspace :: "nat \<Rightarrow> bool" where
  "ascii_isspace c = (c = 32 \<or> (9 \<le> c \<and> c \<le> 13))"

definition to_ascii :: "(nat \<Rightarrow> nat option) \<Rightarrow> nat \<Rightarrow> nat" where
  "to_ascii todecimal c =
     (if c < 127 then c
      else if unicode_isspace c then 32
      else (case todecimal c of Some d \<Rightarrow> 48 + d | None \<Rightarrow> 63))"

definition strip_ascii :: "str \<Rightarrow> str" where
  "strip_ascii s = rev (dropWhile ascii_isspace (rev (dropWhile ascii_isspace s)))"

fun underscores_ok :: "nat \<Rightarrow> str \<Rightarrow> bool" where
  "underscores_ok prev [] = (prev \<noteq> 95)"
| "underscores_ok prev (c # cs) =
     (if c = 95 then ascii_digit prev \<and> underscores_ok c cs
      else if prev = 95 then ascii_digit c \<and> underscores_ok c cs
      else underscores_ok c cs)"

definition skip_sign :: "str \<Rightarrow> str" where
  "skip_sign s = (case s of [] \<Rightarrow> [] | c # cs \<Rightarrow> if c = 43 \<or> c = 45 then cs else s)"

definition lower :: "nat \<Rightarrow> nat" where
  "lower c = (if 65 \<le> c \<and> c \<le> 90 then c + 32 else c)"

definition inf_or_nan :: "str \<Rightarrow> bool" where
  "inf_or_nan s =
     (map lower s = ascii ''inf'' \<or> map lower s = ascii ''infinity''
      \<or> map lower s = ascii ''nan'')"

definition exponent_ok :: "str \<Rightarrow> bool" where
  "exponent_ok r =
     (case r of
        [] \<Rightarrow> True
      | c # cs \<Rightarrow> (c = 101 \<or> c = 69) \<and> skip_sign cs \<noteq> [] \<and> list_all ascii_digit (skip_sign cs))"

definition decimal_literal :: "str \<Rightarrow> bool" where
  "decimal_literal s =
     (let int_part = takeWhile ascii_digit s;
          r1 = dropWhile ascii_digit s;
          frac_part = (case r1 of [] \<Rightarrow> [] | c # cs \<Rightarrow> if c = 46 then takeWhile ascii_digit cs else []);
          r2 = (case r1 of [] \<Rightarrow> [] | c # cs \<Rightarrow> if c = 46 then dropWhile ascii_digit cs else r1)
      in (int_part \<noteq> [] \<or> frac_part \<noteq> []) \<and> exponent_ok r2)"

definition float_accepts :: "(nat \<Rightarrow> nat option) \<Rightarrow> str \<Rightarrow> bool" where
  "float_accepts todecimal s =
     (let t = strip_ascii (map (to_ascii todecimal) s);
          body = skip_sign (filter (\<lambda>c. c \<noteq> 95) t)
      in underscores_ok 0 t \<and> (inf_or_nan body \<or> decimal_literal body))"

text \<open>The message of \<open>only_digit_validator\<close> (the value '...' is not a number).\<close>

definition msg_value :: str where
  "msg_value = [1047, 1085, 1072, 1095, 1077, 1085, 1080, 1077, 32, 39]"

definition msg_not_a_number :: str where
  "msg_not_a_number =
     [39, 32, 1085, 1077, 32, 1103, 1074, 1083, 1103, 1077, 1090, 1089, 1103, 32, 1095, 1080,
      1089, 1083, 1086, 1084, 46]"

definition only_digit_validator :: "(nat \<Rightarrow> nat option) \<Rightarrow> validator" where
  "only_digit_validator todecimal v =
     (let is_num = float_accepts todecimal v
      in if \<not> is_num then Some (ValidationError (msg_value @ v @ msg_not_a_number)) else None)"

section \<open>Console, keyboard and working directory\<close>

text \<open>
  What the program does to the outside, in order: a prompt shown by \<open>input\<close>, a line
  printed, a validator called (its position in the list and its argument), the screen
  cleared, the list widget shown with its names and non-selectable indices, a document
  converted (source and destination), the main menu entered, and an effect of a callable
  that the caller supplied.
\<close>

datatype event =
    Prompt str
  | Print str
  | Validate nat str
  | Clear
  | Select "str list" "nat list option"
  | ToDocx str str
  | ToPdf str str
  | MainMenu
  | Custom str

datatype kind = RegularFile | Directory

text \<open>
  The state: the events so far, the lines still to be typed, and the entries of the
  working directory in the order \<open>os.listdir\<close> gives them.
\<close>

record world =
  console :: "event list"
  stdin :: "str list"
  cwd :: "(str \<times> kind) list"

text \<open>
  An uncaught error: an exception a validator raised, the \<open>ValueError\<close> of
  \<open>list.index\<close>, the \<open>IndexError\<close> of a list subscript, the \<open>OSError\<close> of
  \<open>os.remove\<close> on a missing name or on a directory, the \<open>EOFError\<close> of \<open>input\<close>, and
  the \<open>NameError\<close> of a free variable read before it is bound.
\<close>

datatype error =
    Raised exn
  | NotInList str
  | IndexOutOfRange
  | NoSuchFile str
  | NotAFile str
  | EndOfInput
  | UnboundVariable

definition emit :: "event list \<Rightarrow> world \<Rightarrow> world" where
  "emit es w = w\<lparr>console := console w @ es\<rparr>"

section \<open>Components\<close>

subsection \<open>\<open>validated_input\<close>\<close>

text \<open>
  The \<open>for\<close> loop over the validators: each one is called on the value; a
  \<open>ValidationError\<close> is caught and its message appended to \<open>errors\<close>, any other
  exception leaves the loop. The result comes with the calls made.
\<close>

fun run_validators ::
  "validator list \<Rightarrow> nat \<Rightarrow> str \<Rightarrow> str list \<Rightarrow> event list \<times> (exn + str list)" where
  "run_validators [] k v errors = ([], Inr errors)"
| "run_validators (validator # rest) k v errors =
     (case validator v of
        None \<Rightarrow>
          (let (calls, r) = run_validators rest (Suc k) v errors in (Validate k v # calls, r))
      | Some (ValidationError m) \<Rightarrow>
          (let (calls, r) = run_validators rest (Suc k) v (errors @ [m])
           in (Validate k v # calls, r))
      | Some e \<Rightarrow> ([Validate k v], Inl e))"

text \<open>
  The \<open>while True\<close> loop. \<open>on_successful_confirm\<close> is what the hook does when called.
  With no line left to read, \<open>input\<close> raises.
\<close>

function validated_input ::
  "str \<Rightarrow> validator list \<Rightarrow> event list \<Rightarrow> world \<Rightarrow> (error + str) \<times> world" where
  "validated_input input_name validators on_successful_confirm w =
     (case stdin w of
        [] \<Rightarrow> (Inl EndOfInput, emit [Prompt (input_name @ ascii '': '')] w)
      | v # rest \<Rightarrow>
          (let w1 = (emit [Prompt (input_name @ ascii '': '')] w)\<lparr>stdin := rest\<rparr>;
               (calls, r) = run_validators validators 0 v [];
               w2 = emit calls w1
           in case r of
                Inl e \<Rightarrow> (Inl (Raised e), w2)
              | Inr errors \<Rightarrow>
                  if length errors > 0
                  then validated_input input_name validators on_successful_confirm
                         (emit (map Print errors) w2)
                  else (Inr v, emit on_successful_confirm w2)))"
  by pat_completeness auto
termination
  by (relation "measure (\<lambda>(n, vs, h, w). length (stdin w))") (auto simp: emit_def)

declare validated_input.simps [simp del]

subsection \<open>\<open>Button\<close> and \<open>select\<close>\<close>

record 'a button =
  name :: str
  action :: 'a

text \<open>\<open>xs.index(x)\<close>: the first position of \<open>x\<close>, or \<open>ValueError\<close>.\<close>

fun index_from :: "nat \<Rightarrow> 'a list \<Rightarrow> 'a \<Rightarrow> nat option" where
  "index_from i [] x = None"
| "index_from i (y # ys) x = (if y = x then Some i else index_from (Suc i) ys x)"

definition py_index :: "str list \<Rightarrow> str \<Rightarrow> error + nat" where
  "py_index xs x = (case index_from 0 xs x of None \<Rightarrow> Inl (NotInList x) | Some i \<Rightarrow> Inr i)"

text \<open>The comprehension that resolves the non-selectable names, left to right.\<close>

fun resolve_indices :: "str list \<Rightarrow> str list \<Rightarrow> error + nat list" where
  "resolve_indices button_names [] = Inr []"
| "resolve_indices button_names (n # ns) =
     (case py_index button_names n of
        Inl e \<Rightarrow> Inl e
      | Inr i \<Rightarrow>
          (case resolve_indices button_names ns of
             Inl e \<Rightarrow> Inl e
           | Inr is \<Rightarrow> Inr (i # is)))"

text \<open>The message printed before the selected name (your choice:).\<close>

definition msg_your_choice :: str where
  "msg_your_choice = [1042, 1072, 1096, 32, 1074, 1099, 1073, 1086, 1088, 58, 32]"

text \<open>
  \<open>select\<close>. \<open>on_render\<close> is what the hook does when called; \<open>cutie_select\<close> is the list
  widget of the library, which returns the index the user confirms; \<open>press\<close> calls the
  action bound to a button.
\<close>

definition select ::
  "'a button list \<Rightarrow> 'a button list option \<Rightarrow> event list \<Rightarrow> bool
   \<Rightarrow> (str list \<Rightarrow> nat list option \<Rightarrow> nat)
   \<Rightarrow> ('a \<Rightarrow> world \<Rightarrow> (error + unit) \<times> world)
   \<Rightarrow> world \<Rightarrow> (error + unit) \<times> world" where
  "select buttons non_selectable_buttons on_render print_selected_option cutie_select press w =
     (let w1 = emit on_render w;
          button_names = map name buttons;
          indices =
            (case non_selectable_buttons of
               None \<Rightarrow> Inr None
             | Some bs \<Rightarrow>
                 (case resolve_indices button_names (map name bs) of
                    Inl e \<Rightarrow> Inl e
                  | Inr is \<Rightarrow> Inr (Some is)))
      in case indices of
           Inl e \<Rightarrow> (Inl e, w1)
         | Inr non_selectable_button_indices \<Rightarrow>
             (let pressed_button_index = cutie_select button_names non_selectable_button_indices;
                  w2 = emit [Select button_names non_selectable_button_indices] w1
              in if pressed_button_index < length buttons
                 then
                   (let w3 =
                          (if print_selected_option
                           then emit [Print (msg_your_choice @ ascii '' ''
                                             @ button_names ! pressed_button_index)] w2
                           else w2)
                    in press (action (buttons ! pressed_button_index)) w3)
                 else (Inl IndexOutOfRange, w2)))"

section \<open>Actions\<close>

subsection \<open>The working directory\<close>

text \<open>
  The program passes to \<open>os.path.isfile\<close> and \<open>os.remove\<close> the names that
  \<open>os.listdir\<close> gave it, so a name is looked up among the entries as it is written;
  \<open>os.remove\<close> raises on a name that is missing or that names a directory.
\<close>

definition os_listdir :: "world \<Rightarrow> str list" where
  "os_listdir w = map fst (cwd w)"

definition os_path_isfile :: "world \<Rightarrow> str \<Rightarrow> bool" where
  "os_path_isfile w f = (map_of (cwd w) f = Some RegularFile)"

definition os_remove :: "str \<Rightarrow> world \<Rightarrow> (error + unit) \<times> world" where
  "os_remove f w =
     (case map_of (cwd w) f of
        None \<Rightarrow> (Inl (NoSuchFile f), w)
      | Some Directory \<Rightarrow> (Inl (NotAFile f), w)
      | Some RegularFile \<Rightarrow> (Inr (), w\<lparr>cwd := filter (\<lambda>e. fst e \<noteq> f) (cwd w)\<rparr>))"

fun files_in_cwd_with_exts_loop :: "str list \<Rightarrow> world \<Rightarrow> str list \<Rightarrow> str list" where
  "files_in_cwd_with_exts_loop [] w filelist = filelist"
| "files_in_cwd_with_exts_loop (ext # exts) w filelist =
     files_in_cwd_with_exts_loop exts w
       (filelist @ filter (\<lambda>f. os_path_isfile w f \<and> endswith f (ascii ''.'' @ ext)) (os_listdir w))"

definition files_in_cwd_with_exts :: "str list \<Rightarrow> world \<Rightarrow> str list" where
  "files_in_cwd_with_exts exts w = files_in_cwd_with_exts_loop exts w []"

text \<open>
  The headers of \<open>file_list\<close> (list of the files in this directory; list of the files
  with extension ... in this directory).
\<close>

definition msg_files_here :: str where
  "msg_files_here =
     [1057, 1087, 1080, 1089, 1086, 1082, 32, 1092, 1072, 1081, 1083, 1086, 1074, 32, 1074, 32,
      1076, 1072, 1085, 1085, 1086, 1084, 32, 1082, 1072, 1090, 1072, 1083, 1086, 1075, 1077]"

definition msg_files_with_ext :: str where
  "msg_files_with_ext =
     [1057, 1087, 1080, 1089, 1086, 1082, 32, 1092, 1072, 1081, 1083, 1086, 1074, 32, 1089, 32,
      1088, 1072, 1089, 1096, 1080, 1088, 1077, 1085, 1080, 1077, 1084, 32]"

definition msg_in_this_dir :: str where
  "msg_in_this_dir =
     [32, 1074, 32, 1076, 1072, 1085, 1085, 1086, 1084, 32, 1082, 1072, 1090, 1072, 1083, 1086,
      1075, 1077]"

definition file_list :: "str list \<Rightarrow> world \<Rightarrow> str list \<times> world" where
  "file_list exts w =
     (if length exts = 0
      then (filter (os_path_isfile w) (os_listdir w), emit [Print msg_files_here, Print []] w)
      else (files_in_cwd_with_exts exts w,
            emit [Print (msg_files_with_ext
                         @ (if length exts > 1 then join (ascii ''; '') exts else exts ! 0)
                         @ msg_in_this_dir),
                  Print []] w))"

subsection \<open>Conversion menus\<close>

text \<open>
  The callables bound to the buttons of a conversion menu. The two conversion lambdas
  take no argument and read \<open>file\<close>, a variable of the comprehension that builds the
  buttons, when they are called; all lambdas of one comprehension share that variable.
  \<open>scope\<close> is its value at the call: \<open>None\<close> while it is unbound.
\<close>

datatype callable = ConvertPdfLambda | ConvertDocxLambda | MainMenuLambda

fun call :: "str option \<Rightarrow> callable \<Rightarrow> world \<Rightarrow> (error + unit) \<times> world" where
  "call None ConvertPdfLambda w = (Inl UnboundVariable, w)"
| "call (Some file) ConvertPdfLambda w =
     (Inr (), emit [ToDocx file (ascii ''docx_'' @ replace file (ascii ''.pdf'') (ascii ''.docx''))] w)"
| "call None ConvertDocxLambda w = (Inl UnboundVariable, w)"
| "call (Some file) ConvertDocxLambda w =
     (Inr (), emit [ToPdf file (ascii ''pdf_'' @ replace file (ascii ''.docx'') (ascii ''.pdf''))] w)"
| "call scope MainMenuLambda w = (Inr (), emit [MainMenu] w)"

text \<open>
  The comprehension \<open>[Button(file, lambda: ...) for file in files]\<close>: each step binds
  \<open>file\<close>, evaluates the button's name at once and binds the lambda unevaluated. It
  returns the buttons and the last value of \<open>file\<close>.
\<close>

fun file_buttons ::
  "callable \<Rightarrow> str list \<Rightarrow> str option \<Rightarrow> callable button list \<Rightarrow> callable button list \<times> str option" where
  "file_buttons lam [] scope buttons = (buttons, scope)"
| "file_buttons lam (file # files) scope buttons =
     file_buttons lam files (Some file) (buttons @ [\<lparr>name = file, action = lam\<rparr>])"

text \<open>The name of the last button (exit).\<close>

definition msg_exit :: str where
  "msg_exit = [1042, 1099, 1093, 1086, 1076]"

definition pdf_to_docx ::
  "(str list \<Rightarrow> nat list option \<Rightarrow> nat) \<Rightarrow> world \<Rightarrow> (error + unit) \<times> world" where
  "pdf_to_docx cutie_select w =
     (let w1 = emit [Clear] w;
          (files, w2) = file_list [ascii ''pdf''] w1;
          (buttons, scope) = file_buttons ConvertPdfLambda files None []
      in select (buttons @ [\<lparr>name = msg_exit, action = MainMenuLambda\<rparr>]) None [] False
           cutie_select (call scope) w2)"

definition docx_to_pdf ::
  "(str list \<Rightarrow> nat list option \<Rightarrow> nat) \<Rightarrow> world \<Rightarrow> (error + unit) \<times> world" where
  "docx_to_pdf cutie_select w =
     (let w1 = emit [Clear] w;
          (files, w2) = file_list [ascii ''docx''] w1;
          (buttons, scope) = file_buttons ConvertDocxLambda files None []
      in select (buttons @ [\<lparr>name = msg_exit, action = MainMenuLambda\<rparr>]) None [] False
           cutie_select (call scope) w2)"

subsection \<open>Removing files\<close>

text \<open>The loop of \<open>rm_files\<close>; nothing is ever appended to \<open>removed\<close>.\<close>

fun rm_files_loop :: "str list \<Rightarrow> str list \<Rightarrow> world \<Rightarrow> (error + str list) \<times> world" where
  "rm_files_loop [] removed w = (Inr removed, w)"
| "rm_files_loop (file # files) removed w =
     (case os_remove file w of
        (Inl e, w1) \<Rightarrow> (Inl e, w1)
      | (Inr u, w1) \<Rightarrow> rm_files_loop files removed w1)"

definition rm_files :: "str list \<Rightarrow> world \<Rightarrow> (error + str list) \<times> world" where
  "rm_files files w = rm_files_loop files [] w"

text \<open>The confirmation line (file: "..." removed successfully!).\<close>

definition msg_file :: str where
  "msg_file = [1060, 1072, 1081, 1083, 58, 32, 34]"

definition msg_removed :: str where
  "msg_removed =
     [34, 32, 1091, 1089, 1087, 1077, 1096, 1085, 1086, 32, 1091, 1076, 1072, 1083, 1077, 1085, 33]"

definition successfully_removed_message_for_file :: "str \<Rightarrow> world \<Rightarrow> world" where
  "successfully_removed_message_for_file filename w =
     emit [Print (msg_file @ filename @ msg_removed)] w"

text \<open>The loop \<open>for f in rm_files(...): successfully_removed_message_for_file(f)\<close>.\<close>

definition report_removed :: "(error + str list) \<times> world \<Rightarrow> (error + unit) \<times> world" where
  "report_removed r =
     (case r of
        (Inl e, w1) \<Rightarrow> (Inl e, w1)
      | (Inr removed, w1) \<Rightarrow>
          (Inr (), foldl (\<lambda>w2 f. successfully_removed_message_for_file f w2) w1 removed))"

definition rm_files_startswith :: "str \<Rightarrow> str list \<Rightarrow> world \<Rightarrow> (error + unit) \<times> world" where
  "rm_files_startswith s files w =
     report_removed (rm_files (filter (\<lambda>f. startswith f s) files) w)"

definition rm_files_endswith :: "str \<Rightarrow> str list \<Rightarrow> world \<Rightarrow> (error + unit) \<times> world" where
  "rm_files_endswith s files w =
     report_removed (rm_files (filter (\<lambda>f. endswith f s) files) w)"

definition rm_files_contains :: "str \<Rightarrow> str list \<Rightarrow> world \<Rightarrow> (error + unit) \<times> world" where
  "rm_files_contains s files w =
     report_removed (rm_files (filter (\<lambda>f. contains f s) files) w)"

definition rm_files_by_extension :: "str \<Rightarrow> world \<Rightarrow> (error + unit) \<times> world" where
  "rm_files_by_extension ext w =
     report_removed (rm_files (files_in_cwd_with_exts [ascii ''ext''] w) w)"

text \<open>
  The prompts of \<open>rm_files_group\<close> (enter the substring; enter the extension) and the
  names of its buttons (remove all files that start with, that end with, that contain a
  given substring; remove all files by extension).
\<close>

definition msg_enter_substring :: str where
  "msg_enter_substring =
     [1042, 1074, 1077, 1076, 1080, 1090, 1077, 32, 1087, 1086, 1076, 1089, 1090, 1088, 1086,
      1082, 1091]"

definition msg_enter_extension :: str where
  "msg_enter_extension =
     [1042, 1074, 1077, 1076, 1080, 1090, 1077, 32, 1088, 1072, 1089, 1096, 1080, 1088, 1077,
      1085, 1080, 1077]"

definition msg_rm_startswith :: str where
  "msg_rm_startswith =
     [1059, 1076, 1072, 1083, 1080, 1090, 1100, 32, 1074, 1089, 1077, 32, 1092, 1072, 1081,
      1083, 1099, 32, 1085, 1072, 1095, 1080, 1085, 1072, 1102, 1097, 1080, 1077, 1089, 1103,
      32, 1085, 1072, 32, 1086, 1087, 1088, 1077, 1076, 1077, 1083, 1077, 1085, 1085, 1091,
      1102, 32, 1087, 1086, 1076, 1089, 1090, 1088, 1086, 1082, 1091]"

definition msg_rm_endswith :: str where
  "msg_rm_endswith =
     [1059, 1076, 1072, 1083, 1080, 1090, 1100, 32, 1074, 1089, 1077, 32, 1092, 1072, 1081,
      1083, 1099, 32, 1079, 1072, 1082, 1072, 1085, 1095, 1080, 1074, 1072, 1102, 1097, 1080,
      1077, 1089, 1103, 32, 1085, 1072, 32, 1086, 1087, 1088, 1077, 1076, 1077, 1083, 1077,
      1085, 1085, 1091, 1102, 32, 1087, 1086, 1076, 1089, 1090, 1088, 1086, 1082, 1091]"

definition msg_rm_contains :: str where
  "msg_rm_contains =
     [1059, 1076, 1072, 1083, 1080, 1090, 1100, 32, 1074, 1089, 1077, 32, 1092, 1072, 1081,
      1083, 1099, 32, 1089, 1086, 1076, 1077, 1088, 1078, 1072, 1097, 1080, 1077, 32, 1086,
      1087, 1088, 1077, 1076, 1077, 1083, 1077, 1085, 1085, 1091, 1102, 32, 1087, 1086, 1076,
      1089, 1090, 1088, 1086, 1082, 1091]"

definition msg_rm_by_extension :: str where
  "msg_rm_by_extension =
     [1059, 1076, 1072, 1083, 1080, 1090, 1100, 32, 1074, 1089, 1077, 32, 1092, 1072, 1081,
      1083, 1099, 32, 1087, 1086, 32, 1088, 1072, 1089, 1096, 1080, 1088, 1077, 1085, 1080, 1102]"

text \<open>
  The lambdas bound to the buttons of \<open>rm_files_group\<close>. Each reads the text with
  \<open>validated_input\<close> (validators \<open>[not_empty]\<close>, the default hook) and passes it on;
  \<open>files\<close> is the list that \<open>rm_files_group\<close> took before showing the menu.
\<close>

datatype group_callable =
  StartswithLambda | EndswithLambda | ContainsLambda | ByExtensionLambda | ExitLambda

fun call_group :: "str list \<Rightarrow> group_callable \<Rightarrow> world \<Rightarrow> (error + unit) \<times> world" where
  "call_group files StartswithLambda w =
     (case validated_input msg_enter_substring [not_empty] [] w of
        (Inl e, w1) \<Rightarrow> (Inl e, w1)
      | (Inr s, w1) \<Rightarrow> rm_files_startswith s files w1)"
| "call_group files EndswithLambda w =
     (case validated_input msg_enter_substring [not_empty] [] w of
        (Inl e, w1) \<Rightarrow> (Inl e, w1)
      | (Inr s, w1) \<Rightarrow> rm_files_endswith s files w1)"
| "call_group files ContainsLambda w =
     (case validated_input msg_enter_substring [not_empty] [] w of
        (Inl e, w1) \<Rightarrow> (Inl e, w1)
      | (Inr s, w1) \<Rightarrow> rm_files_contains s files w1)"
| "call_group files ByExtensionLambda w =
     (case validated_input msg_enter_extension [not_empty] [] w of
        (Inl e, w1) \<Rightarrow> (Inl e, w1)
      | (Inr ext, w1) \<Rightarrow> rm_files_by_extension ext w1)"
| "call_group files ExitLambda w = (Inr (), emit [MainMenu] w)"

definition rm_files_group ::
  "(str list \<Rightarrow> nat list option \<Rightarrow> nat) \<Rightarrow> world \<Rightarrow> (error + unit) \<times> world" where
  "rm_files_group cutie_select w =
     (let (files, w1) = file_list [] w
      in select
           [\<lparr>name = msg_rm_startswith, action = StartswithLambda\<rparr>,
            \<lparr>name = msg_rm_endswith, action = EndswithLambda\<rparr>,
            \<lparr>name = msg_rm_contains, action = ContainsLambda\<rparr>,
            \<lparr>name = msg_rm_by_extension, action = ByExtensionLambda\<rparr>,
            \<lparr>name = msg_exit, action = ExitLambda\<rparr>]
           None [Clear] False cutie_select (call_group files) w1)"

section \<open>Notions used to state the properties\<close>

text \<open>The number that a string of decimal digits denotes.\<close>

definition decimal_value :: "str \<Rightarrow> nat" where
  "decimal_value ds = foldl (\<lambda>a d. 10 * a + (d - 48)) 0 ds"

text \<open>
  The failures of the element validators on one token, in the order of the validators,
  and on all tokens, in the order of the tokens.
\<close>

definition elem_failures :: "validator list \<Rightarrow> nat \<Rightarrow> str \<Rightarrow> str list" where
  "elem_failures vs i elem = List.map_filter (\<lambda>f. map_option (elem_error elem i) (f elem)) vs"

definition all_failures :: "validator list \<Rightarrow> str list \<Rightarrow> str list" where
  "all_failures vs tokens =
     concat (map (\<lambda>(i, elem). elem_failures vs i elem) (enumerate 0 tokens))"

text \<open>
  A validator keeps to its contract on a line when it returns or raises
  \<open>ValidationError\<close> there. The messages of the validators that fail on a line, the
  calls of all validators on it, and everything a rejected line leaves on the console.
\<close>

definition conforms :: "validator \<Rightarrow> str \<Rightarrow> bool" where
  "conforms f l =
     (case f l of None \<Rightarrow> True | Some (ValidationError m) \<Rightarrow> True | Some e \<Rightarrow> False)"

definition failure_messages :: "validator list \<Rightarrow> str \<Rightarrow> str list" where
  "failure_messages vs l =
     List.map_filter (\<lambda>f. case f l of Some (ValidationError m) \<Rightarrow> Some m | _ \<Rightarrow> None) vs"

definition calls :: "validator list \<Rightarrow> str \<Rightarrow> event list" where
  "calls vs l = map (\<lambda>k. Validate k l) [0..<length vs]"

definition rejected_attempt :: "str \<Rightarrow> validator list \<Rightarrow> str \<Rightarrow> event list" where
  "rejected_attempt input_name vs l =
     Prompt (input_name @ ascii '': '') # calls vs l @ map Print (failure_messages vs l)"

text \<open>
  The position of the first occurrence of \<open>x\<close> in \<open>xs\<close> (the length of \<open>xs\<close> when
  there is none), and the first of the names \<open>ns\<close> that is not among \<open>names\<close>.
\<close>

definition first_index :: "'a list \<Rightarrow> 'a \<Rightarrow> nat" where
  "first_index xs x = length (takeWhile (\<lambda>y. y \<noteq> x) xs)"

definition first_missing :: "str list \<Rightarrow> str list \<Rightarrow> str" where
  "first_missing names ns = hd (filter (\<lambda>n. n \<notin> set names) ns)"

text \<open>
  Concrete surroundings for the examples: a user who confirms entry \<open>i\<close> of every list,
  an interpreter whose table has no decimal digit beyond ASCII, and button actions that
  leave their name on the console.
\<close>

definition always :: "nat \<Rightarrow> str list \<Rightarrow> nat list option \<Rightarrow> nat" where
  "always i names indices = i"

definition ascii_only :: "nat \<Rightarrow> nat option" where
  "ascii_only c = None"

definition record_press :: "str \<Rightarrow> world \<Rightarrow> (error + unit) \<times> world" where
  "record_press a w = (Inr (), emit [Custom a] w)"

section \<open>Properties of the validators\<close>

lemma str_nat_digits: "list_all ascii_digit (str_nat n)"
proof (induction n rule: str_nat.induct)
  case (1 n)
  show ?case
  proof (cases "n < 10")
    case True
    then show ?thesis by (simp add: str_nat.simps [of n] ascii_digit_def)
  next
    case False
    have "n mod 10 < 10" by simp
    then have "ascii_digit (48 + n mod 10)" unfolding ascii_digit_def by linarith
    with False 1 show ?thesis by (simp add: str_nat.simps [of n])
  qed
qed

lemma decimal_value_snoc: "decimal_value (ds @ [d]) = 10 * decimal_value ds + (d - 48)"
  by (simp add: decimal_value_def)

lemma str_nat_value: "decimal_value (str_nat n) = n"
proof (induction n rule: str_nat.induct)
  case (1 n)
  show ?case
  proof (cases "n < 10")
    case True
    then show ?thesis by (simp add: str_nat.simps [of n] decimal_value_def)
  next
    case False
    with 1 have "decimal_value (str_nat (n div 10)) = n div 10" by simp
    with False show ?thesis
      by (simp add: str_nat.simps [of n] decimal_value_snoc)
  qed
qed

text \<open>Joining the pieces of a split with the separator gives the string back.\<close>

lemma split_from_not_Nil: "split_from sep cur s \<noteq> []"
  by (induction sep cur s rule: split_from.induct) auto

lemma join_Cons: "xs \<noteq> [] \<Longrightarrow> join sep (x # xs) = x @ sep @ join sep xs"
  by (cases xs) simp_all

lemma join_split_from: "sep \<noteq> [] \<Longrightarrow> join sep (split_from sep cur s) = cur @ s"
proof (induction sep cur s rule: split_from.induct)
  case (1 sep cur)
  then show ?case by simp
next
  case (2 sep cur c cs)
  show ?case
  proof (cases "prefix sep (c # cs)")
    case True
    then have "c # cs = sep @ drop (length sep) (c # cs)"
      by (metis append_eq_conv_conj prefixE)
    moreover from True 2 have "join sep (split_from sep [] (drop (length sep) (c # cs))) =
                  drop (length sep) (c # cs)" by simp
    ultimately show ?thesis using True 2
      by (simp add: join_Cons split_from_not_Nil del: drop_Suc_Cons)
  next
    case False
    with 2 show ?thesis by simp
  qed
qed

lemma str_nat_two: "str_nat (Suc (Suc 0)) = ascii ''2''"
  by (simp add: str_nat.simps ascii_def)

lemma space_not_empty: "ascii '' '' \<noteq> []"
  by (simp add: ascii_def)

lemma not_empty_examples:
  "not_empty [] = Some (ValidationError msg_not_empty)" "not_empty (ascii ''ok'') = None"
  by (simp_all add: not_empty_def isspace_def ascii_def unicode_isspace_def)

lemmas float_unfold =
  float_accepts_def ascii_def to_ascii_def strip_ascii_def ascii_isspace_def ascii_digit_def
  skip_sign_def inf_or_nan_def decimal_literal_def exponent_ok_def lower_def

lemma float_accepts_examples:
  "float_accepts todecimal (ascii ''3.14'')" "float_accepts todecimal (ascii ''-2'')"
  "\<not> float_accepts todecimal (ascii ''abc'')" "\<not> float_accepts todecimal []"
  by (simp_all add: float_unfold)

lemma float_accepts_tokens:
  "float_accepts todecimal (ascii ''1'')" "float_accepts todecimal (ascii ''2'')"
  "float_accepts todecimal (ascii ''3'')" "\<not> float_accepts todecimal (ascii ''x'')"
  by (simp_all add: float_unfold)

text \<open>
  C7. For every string, \<open>not_empty\<close> raises its validation error exactly when the string
  is empty or consists of whitespace characters only, and returns normally otherwise.
\<close>

theorem not_empty_fails_iff_blank:
  "not_empty s =
     (if s = [] \<or> (\<forall>c\<in>set s. unicode_isspace c)
      then Some (ValidationError msg_not_empty) else None)"
  by (auto simp: not_empty_def isspace_def list_all_iff)

theorem not_empty_fails_iff_blank_witness:
  "not_empty [] = Some (ValidationError msg_not_empty)
   \<and> not_empty [32, 9, 8195] = Some (ValidationError msg_not_empty)
   \<and> not_empty (ascii ''ok '') = None"
  using not_empty_fails_iff_blank [of "[]"] not_empty_fails_iff_blank [of "[32, 9, 8195]"]
    not_empty_fails_iff_blank [of "ascii ''ok ''"]
  by (simp add: unicode_isspace_def ascii_def)

text \<open>
  C8. For every string, \<open>only_digit_validator\<close> raises its validation error exactly when
  \<open>float\<close> does not accept the string. It passes for \<open>3.14\<close> and \<open>-2\<close> and fails for
  \<open>abc\<close> and for the empty string, whatever the interpreter's table of decimal digits.
\<close>

theorem only_digit_validator_fails_iff_not_float:
  "only_digit_validator todecimal s =
     (if float_accepts todecimal s then None
      else Some (ValidationError (msg_value @ s @ msg_not_a_number)))
   \<and> only_digit_validator todecimal (ascii ''3.14'') = None
   \<and> only_digit_validator todecimal (ascii ''-2'') = None
   \<and> only_digit_validator todecimal (ascii ''abc'') =
       Some (ValidationError (msg_value @ ascii ''abc'' @ msg_not_a_number))
   \<and> only_digit_validator todecimal [] = Some (ValidationError (msg_value @ msg_not_a_number))"
  by (simp add: only_digit_validator_def float_accepts_examples)

theorem only_digit_validator_fails_iff_not_float_witness:
  "only_digit_validator ascii_only (ascii ''1e-5'') = None
   \<and> only_digit_validator ascii_only (ascii ''1 2'') =
       Some (ValidationError (msg_value @ ascii ''1 2'' @ msg_not_a_number))"
proof -
  have "float_accepts ascii_only (ascii ''1e-5'')" "\<not> float_accepts ascii_only (ascii ''1 2'')"
    by (simp_all add: float_unfold)
  then show ?thesis
    using only_digit_validator_fails_iff_not_float [of ascii_only "ascii ''1e-5''"]
      only_digit_validator_fails_iff_not_float [of ascii_only "ascii ''1 2''"]
    by simp
qed

text \<open>
  C6, as the claim states it, fails for the empty separator: \<open>split\<close> raises
  \<open>ValueError\<close> there, so the validator raises that error, which is no validation error
  and reports no count.
\<close>

theorem list_len_validator_empty_separator:
  "py_split (ascii ''a b c'') [] = None
   \<and> list_len_validator 3 [] (ascii ''a b c'') = Some (ValueError (ascii ''empty separator''))"
  by (simp add: list_len_validator_def py_split_def)

text \<open>
  C6, amended. For every \<open>n\<close>, every non-empty separator and every string,
  \<open>list_len_validator\<close> raises its validation error exactly when splitting the string on
  the separator does not give \<open>n\<close> tokens, and the message ends with the decimal digits
  of the actual number of tokens.
\<close>

theorem list_len_validator_fails_iff_count_differs:
  "sep \<noteq> [] \<Longrightarrow>
   list_len_validator n sep s =
     (if int (length (split_from sep [] s)) = n then None
      else Some (ValidationError
             (msg_len_must_equal @ str_int n @ msg_len_now
              @ str_nat (length (split_from sep [] s)) @ ascii ''.'')))
   \<and> decimal_value (str_nat (length (split_from sep [] s))) = length (split_from sep [] s)"
  by (simp add: list_len_validator_def py_split_def str_nat_value)

theorem list_len_validator_fails_iff_count_differs_witness:
  "ascii '' '' \<noteq> []
   \<and> list_len_validator 3 (ascii '' '') (ascii ''a b c'') = None
   \<and> list_len_validator 3 (ascii '' '') (ascii ''a b'') =
       Some (ValidationError
         (msg_len_must_equal @ ascii ''3'' @ msg_len_now @ ascii ''2'' @ ascii ''.''))"
proof -
  have s1: "split_from (ascii '' '') [] (ascii ''a b c'') = [ascii ''a'', ascii ''b'', ascii ''c'']"
    and s2: "split_from (ascii '' '') [] (ascii ''a b'') = [ascii ''a'', ascii ''b'']"
    by (simp_all add: ascii_def)
  have d: "str_int 3 = ascii ''3''"
    by (simp add: str_int_def str_nat.simps ascii_def)
  show ?thesis
    using space_not_empty
      list_len_validator_fails_iff_count_differs [OF space_not_empty, of 3 "ascii ''a b c''"]
      list_len_validator_fails_iff_count_differs [OF space_not_empty, of 3 "ascii ''a b''"]
    by (simp add: s1 s2 d str_nat_two)
qed

lemma validate_elem_eq:
  "validate_elem vs i elem errors = errors @ elem_failures vs i elem"
  by (induction vs arbitrary: errors)
     (auto simp: elem_failures_def split: option.splits)

lemma validate_elems_eq:
  "validate_elems vs i tokens errors =
     errors @ concat (map (\<lambda>(j, elem). elem_failures vs j elem) (enumerate i tokens))"
  by (induction tokens arbitrary: i errors) (auto simp: validate_elem_eq)

text \<open>
  C5, as the claim states it, fails for the empty separator: \<open>split\<close> raises
  \<open>ValueError\<close> outside the \<open>try\<close>, so the validator neither passes nor raises the
  combined validation error.
\<close>

theorem list_elems_validator_empty_separator:
  "list_elems_validator [] [only_digit_validator ascii_only] (ascii ''1 2 x'') =
     Some (ValueError (ascii ''empty separator''))"
  by (simp add: list_elems_validator_def py_split_def)

text \<open>
  C5, amended. For every non-empty separator, every list of element validators and every
  string, \<open>list_elems_validator\<close> applies every element validator to every token of the
  split string; it passes when no application raises, and otherwise raises one
  validation error whose message joins, one per line, an entry for every failing
  application, each entry naming the token and its index.
\<close>

theorem list_elems_validator_aggregates_all_failures:
  "sep \<noteq> [] \<Longrightarrow>
   list_elems_validator sep elem_validators s =
     (if all_failures elem_validators (split_from sep [] s) = [] then None
      else Some (ValidationError
             (join [10] (all_failures elem_validators (split_from sep [] s)))))"
  by (simp add: list_elems_validator_def py_split_def validate_elems_eq all_failures_def Let_def)

theorem list_elems_validator_aggregates_all_failures_witness:
  "ascii '' '' \<noteq> []
   \<and> list_elems_validator (ascii '' '') [only_digit_validator ascii_only] (ascii ''1 2 3'') = None
   \<and> list_elems_validator (ascii '' '') [only_digit_validator ascii_only] (ascii ''1 2 x'') =
       Some (ValidationError
         (msg_elem_error @ ascii ''x'' @ msg_elem_number @ ascii ''2'' @ ascii '': ''
          @ msg_value @ ascii ''x'' @ msg_not_a_number))"
proof -
  have s1: "split_from (ascii '' '') [] (ascii ''1 2 3'') = [ascii ''1'', ascii ''2'', ascii ''3'']"
    and s2: "split_from (ascii '' '') [] (ascii ''1 2 x'') = [ascii ''1'', ascii ''2'', ascii ''x'']"
    by (simp_all add: ascii_def)
  have a1: "all_failures [only_digit_validator ascii_only]
              [ascii ''1'', ascii ''2'', ascii ''3''] = []"
    by (simp add: all_failures_def elem_failures_def
          only_digit_validator_def float_accepts_tokens)
  have a2: "all_failures [only_digit_validator ascii_only]
              [ascii ''1'', ascii ''2'', ascii ''x''] =
            [msg_elem_error @ ascii ''x'' @ msg_elem_number @ ascii ''2'' @ ascii '': ''
             @ msg_value @ ascii ''x'' @ msg_not_a_number]"
    by (simp add: all_failures_def elem_failures_def
          only_digit_validator_def float_accepts_tokens elem_error_def str_nat_two)
  show ?thesis
    using space_not_empty
      list_elems_validator_aggregates_all_failures
        [OF space_not_empty, of "[only_digit_validator ascii_only]" "ascii ''1 2 3''"]
      list_elems_validator_aggregates_all_failures
        [OF space_not_empty, of "[only_digit_validator ascii_only]" "ascii ''1 2 x''"]
    by (simp add: s1 s2 a1 a2)
qed

section \<open>Properties of \<open>validated_input\<close>\<close>

lemma run_validators_conforming:
  "\<forall>f\<in>set vs. conforms f v \<Longrightarrow>
   run_validators vs k v errors =
     (map (\<lambda>j. Validate j v) [k..<k + length vs], Inr (errors @ failure_messages vs v))"
proof (induction vs arbitrary: k errors)
  case Nil
  then show ?case by (simp add: failure_messages_def)
next
  case (Cons f vs)
  have up: "[k..<Suc (k + length vs)] = k # [Suc k..<Suc (k + length vs)]"
    by (rule upt_conv_Cons) simp
  from Cons.prems have rest: "\<forall>g\<in>set vs. conforms g v" and c: "conforms f v" by simp_all
  note IH = Cons.IH [OF rest]
  show ?case
  proof (cases "f v")
    case None
    then show ?thesis
      by (simp add: IH up failure_messages_def del: upt_Suc)
  next
    case (Some e)
    with c obtain m where e: "e = ValidationError m"
      by (cases e) (auto simp: conforms_def)
    with Some show ?thesis
      by (simp add: IH up failure_messages_def del: upt_Suc)
  qed
qed

lemma validated_input_rejects:
  assumes "stdin w = l # rest" "\<forall>f\<in>set vs. conforms f l" "failure_messages vs l \<noteq> []"
  shows "validated_input n vs h w =
         validated_input n vs h
           (w\<lparr>stdin := rest, console := console w @ rejected_attempt n vs l\<rparr>)"
  using assms
  by (subst validated_input.simps)
     (simp add: run_validators_conforming emit_def rejected_attempt_def calls_def)

lemma validated_input_accepts:
  assumes "stdin w = l # rest" "\<forall>f\<in>set vs. conforms f l" "failure_messages vs l = []"
  shows "validated_input n vs h w =
         (Inr l,
          w\<lparr>stdin := rest,
            console := console w @ Prompt (n @ ascii '': '') # calls vs l @ h\<rparr>)"
  using assms
  by (subst validated_input.simps)
     (simp add: run_validators_conforming emit_def calls_def)

lemma not_empty_conforms: "conforms not_empty l"
  by (simp add: conforms_def not_empty_def)

lemma not_empty_messages:
  "failure_messages [not_empty] [] = [msg_not_empty]"
  "failure_messages [not_empty] (ascii ''ok'') = []"
  "failure_messages [not_empty] (ascii ''draft'') = []"
  by (simp_all add: failure_messages_def not_empty_def isspace_def ascii_def unicode_isspace_def)

text \<open>
  C2, as the claim states it, fails for a validator that raises anything other than
  \<open>ValidationError\<close>: only that exception is caught. With the validators
  \<open>list_len_validator(1, "")\<close> and \<open>not_empty\<close> and the lines \<open>""\<close> and \<open>"ok"\<close>, the
  first validator raises \<open>ValueError\<close> on the first line; \<open>not_empty\<close> is never called,
  nothing is displayed, no second prompt is shown and nothing is returned.
\<close>

theorem validated_input_other_exception_escapes:
  "validated_input (ascii ''Name'') [list_len_validator 1 [], not_empty] []
     \<lparr>console = [], stdin = [[], ascii ''ok''], cwd = []\<rparr> =
   (Inl (Raised (ValueError (ascii ''empty separator''))),
    \<lparr>console = [Prompt (ascii ''Name: ''), Validate 0 []], stdin = [ascii ''ok''], cwd = []\<rparr>)"
  by (subst validated_input.simps)
     (simp add: list_len_validator_def py_split_def emit_def ascii_def)

text \<open>
  C2, amended. For every prompt label, every list of validators that raise nothing but
  \<open>ValidationError\<close> on the lines read, every hook and every sequence of input lines:
  when \<open>accepted\<close> is the first line on which no validator fails, \<open>validated_input\<close>
  returns it and leaves the lines after it unread. For each line before it, the console
  shows the prompt, the call of every validator on that line, and all failure messages
  of that line together; then comes the prompt for the accepted line, the call of every
  validator on it, and the effect of the hook, once and last.
\<close>

theorem validated_input_returns_first_valid_line:
  assumes "stdin w = rejected @ accepted # rest"
      and "\<forall>l\<in>set (rejected @ [accepted]). \<forall>f\<in>set validators. conforms f l"
      and "\<forall>l\<in>set rejected. failure_messages validators l \<noteq> []"
      and "failure_messages validators accepted = []"
  shows "validated_input input_name validators on_successful_confirm w =
           (Inr accepted,
            w\<lparr>stdin := rest,
              console := console w @ concat (map (rejected_attempt input_name validators) rejected)
                           @ Prompt (input_name @ ascii '': '') # calls validators accepted
                           @ on_successful_confirm\<rparr>)"
  using assms
proof (induction rejected arbitrary: w)
  case Nil
  then show ?case by (simp add: validated_input_accepts)
next
  case (Cons l ls)
  let ?w = "w\<lparr>stdin := ls @ accepted # rest,
              console := console w @ rejected_attempt input_name validators l\<rparr>"
  have step: "validated_input input_name validators on_successful_confirm w =
              validated_input input_name validators on_successful_confirm ?w"
    using Cons.prems by (intro validated_input_rejects) simp_all
  have "validated_input input_name validators on_successful_confirm ?w =
           (Inr accepted,
            ?w\<lparr>stdin := rest,
              console := console ?w @ concat (map (rejected_attempt input_name validators) ls)
                           @ Prompt (input_name @ ascii '': '') # calls validators accepted
                           @ on_successful_confirm\<rparr>)"
    using Cons.prems by (intro Cons.IH) simp_all
  with step show ?case by simp
qed

theorem validated_input_returns_first_valid_line_witness:
  "stdin \<lparr>console = [], stdin = [[], ascii ''ok''], cwd = []\<rparr> = [[]] @ ascii ''ok'' # []
   \<and> conforms not_empty [] \<and> conforms not_empty (ascii ''ok'')
   \<and> failure_messages [not_empty] [] \<noteq> []
   \<and> failure_messages [not_empty] (ascii ''ok'') = []
   \<and> validated_input (ascii ''Name'') [not_empty] [Custom (ascii ''hook'')]
        \<lparr>console = [], stdin = [[], ascii ''ok''], cwd = []\<rparr> =
      (Inr (ascii ''ok''),
       \<lparr>console = [Prompt (ascii ''Name: ''), Validate 0 [], Print msg_not_empty,
                   Prompt (ascii ''Name: ''), Validate 0 (ascii ''ok''), Custom (ascii ''hook'')],
        stdin = [], cwd = []\<rparr>)"
proof -
  have h1: "stdin \<lparr>console = [], stdin = [[], ascii ''ok''], cwd = []\<rparr> = [[]] @ ascii ''ok'' # []"
    by simp
  have h2: "\<forall>l\<in>set ([[]] @ [ascii ''ok'']). \<forall>f\<in>set [not_empty]. conforms f l"
    by (simp add: not_empty_conforms)
  have h3: "\<forall>l\<in>set [[]]. failure_messages [not_empty] l \<noteq> []"
    by (simp add: not_empty_messages)
  have h4: "failure_messages [not_empty] (ascii ''ok'') = []"
    by (simp add: not_empty_messages)
  have cat: "ascii ''Name'' @ ascii '': '' = ascii ''Name: ''"
    by (simp add: ascii_def)
  show ?thesis
    using h1 h4
      validated_input_returns_first_valid_line
        [OF h1 h2 h3 h4, of "ascii ''Name''" "[Custom (ascii ''hook'')]"]
    by (simp add: rejected_attempt_def calls_def not_empty_messages not_empty_conforms cat)
qed

text \<open>
  C9. With an empty list of validators, \<open>validated_input\<close> returns the first line it
  reads, whatever that line is, the empty string included: one prompt is shown, the hook
  runs, and the remaining lines stay unread.
\<close>

theorem validated_input_no_validators_accepts_first_line:
  "stdin w = l # rest \<Longrightarrow>
   validated_input input_name [] on_successful_confirm w =
     (Inr l,
      w\<lparr>stdin := rest,
        console := console w @ Prompt (input_name @ ascii '': '') # on_successful_confirm\<rparr>)"
  by (subst validated_input.simps) (simp add: emit_def)

theorem validated_input_no_validators_accepts_first_line_witness:
  "stdin \<lparr>console = [], stdin = [[], ascii ''x''], cwd = []\<rparr> = [] # [ascii ''x'']
   \<and> validated_input (ascii ''Name'') [] [] \<lparr>console = [], stdin = [[], ascii ''x''], cwd = []\<rparr> =
      (Inr [], \<lparr>console = [Prompt (ascii ''Name: '')], stdin = [ascii ''x''], cwd = []\<rparr>)"
  using validated_input_no_validators_accepts_first_line
    [of "\<lparr>console = [], stdin = [[], ascii ''x''], cwd = []\<rparr>" "[]" "[ascii ''x'']"
        "ascii ''Name''" "[]"]
  by (simp add: ascii_def)

section \<open>Properties of \<open>select\<close>\<close>

lemma index_from_eq:
  "index_from i xs x = (if x \<in> set xs then Some (i + first_index xs x) else None)"
  by (induction xs arbitrary: i) (auto simp: first_index_def)

lemma first_index_props:
  "x \<in> set xs \<Longrightarrow>
   first_index xs x < length xs \<and> xs ! first_index xs x = x
   \<and> (\<forall>j<first_index xs x. xs ! j \<noteq> x)"
proof (induction xs)
  case Nil
  then show ?case by simp
next
  case (Cons y ys)
  show ?case
  proof (cases "y = x")
    case True
    then show ?thesis by (simp add: first_index_def)
  next
    case False
    with Cons.prems have "x \<in> set ys" by simp
    from Cons.IH [OF this] False show ?thesis
      by (auto simp: first_index_def nth_Cons split: nat.splits)
  qed
qed

lemma resolve_indices_found:
  "set ns \<subseteq> set names \<Longrightarrow> resolve_indices names ns = Inr (map (first_index names) ns)"
  by (induction ns) (auto simp: py_index_def index_from_eq)

lemma resolve_indices_missing:
  "\<not> set ns \<subseteq> set names \<Longrightarrow>
   resolve_indices names ns = Inl (NotInList (first_missing names ns))"
proof (induction ns)
  case Nil
  then show ?case by simp
next
  case (Cons n ns)
  show ?case
  proof (cases "n \<in> set names")
    case True
    with Cons.prems have "\<not> set ns \<subseteq> set names" by simp
    from Cons.IH [OF this] True show ?thesis
      by (simp add: py_index_def index_from_eq first_missing_def)
  next
    case False
    then show ?thesis by (simp add: py_index_def index_from_eq first_missing_def)
  qed
qed

lemma first_missing_props:
  "\<not> set ns \<subseteq> set names \<Longrightarrow>
   first_missing names ns \<in> set ns \<and> first_missing names ns \<notin> set names"
proof -
  assume "\<not> set ns \<subseteq> set names"
  then have "filter (\<lambda>n. n \<notin> set names) ns \<noteq> []"
    by (auto simp: filter_empty_conv)
  then have "hd (filter (\<lambda>n. n \<notin> set names) ns) \<in> set (filter (\<lambda>n. n \<notin> set names) ns)"
    by (rule hd_in_set)
  then show ?thesis by (simp add: first_missing_def)
qed

text \<open>
  C4. For every list of buttons and every list of non-selectable buttons: when every
  non-selectable name is among the displayed names, each is resolved to the position of
  its first occurrence there (the name stands at that position and at none before it),
  and \<open>select\<close> goes on to the widget with these positions; when some non-selectable
  name is not displayed, \<open>select\<close> ends, after the render hook, with the error of the
  first such name: the widget is not shown and no button is pressed.
\<close>

theorem select_resolves_first_occurrence_or_fails:
  "(set (map name non_selectable) \<subseteq> set (map name buttons) \<longrightarrow>
      resolve_indices (map name buttons) (map name non_selectable) =
        Inr (map (first_index (map name buttons)) (map name non_selectable))
      \<and> (\<forall>n\<in>set (map name non_selectable).
            first_index (map name buttons) n < length buttons
            \<and> map name buttons ! first_index (map name buttons) n = n
            \<and> (\<forall>j<first_index (map name buttons) n. map name buttons ! j \<noteq> n))
      \<and> select buttons (Some non_selectable) on_render print_selected cutie_select press w =
          (let indices = Some (map (first_index (map name buttons)) (map name non_selectable));
               pressed = cutie_select (map name buttons) indices;
               w2 = emit (on_render @ [Select (map name buttons) indices]) w
           in if pressed < length buttons
              then press (action (buttons ! pressed))
                     (if print_selected
                      then emit [Print (msg_your_choice @ ascii '' '' @ name (buttons ! pressed))] w2
                      else w2)
              else (Inl IndexOutOfRange, w2)))
   \<and> (\<not> set (map name non_selectable) \<subseteq> set (map name buttons) \<longrightarrow>
        first_missing (map name buttons) (map name non_selectable) \<in> set (map name non_selectable)
        \<and> first_missing (map name buttons) (map name non_selectable) \<notin> set (map name buttons)
        \<and> select buttons (Some non_selectable) on_render print_selected cutie_select press w =
            (Inl (NotInList (first_missing (map name buttons) (map name non_selectable))),
             emit on_render w))"
proof (intro conjI impI)
  assume sub: "set (map name non_selectable) \<subseteq> set (map name buttons)"
  show "resolve_indices (map name buttons) (map name non_selectable) =
        Inr (map (first_index (map name buttons)) (map name non_selectable))"
    using sub by (rule resolve_indices_found)
  show "\<forall>n\<in>set (map name non_selectable).
            first_index (map name buttons) n < length buttons
            \<and> map name buttons ! first_index (map name buttons) n = n
            \<and> (\<forall>j<first_index (map name buttons) n. map name buttons ! j \<noteq> n)"
  proof
    fix n assume "n \<in> set (map name non_selectable)"
    with sub have "n \<in> set (map name buttons)" by blast
    from first_index_props [OF this]
    show "first_index (map name buttons) n < length buttons
            \<and> map name buttons ! first_index (map name buttons) n = n
            \<and> (\<forall>j<first_index (map name buttons) n. map name buttons ! j \<noteq> n)"
      by (simp del: nth_map)
  qed
  show "select buttons (Some non_selectable) on_render print_selected cutie_select press w =
          (let indices = Some (map (first_index (map name buttons)) (map name non_selectable));
               pressed = cutie_select (map name buttons) indices;
               w2 = emit (on_render @ [Select (map name buttons) indices]) w
           in if pressed < length buttons
              then press (action (buttons ! pressed))
                     (if print_selected
                      then emit [Print (msg_your_choice @ ascii '' '' @ name (buttons ! pressed))] w2
                      else w2)
              else (Inl IndexOutOfRange, w2))"
    by (simp add: select_def resolve_indices_found [OF sub] Let_def emit_def)
next
  assume nsub: "\<not> set (map name non_selectable) \<subseteq> set (map name buttons)"
  from first_missing_props [OF nsub]
  show "first_missing (map name buttons) (map name non_selectable) \<in> set (map name non_selectable)"
    and "first_missing (map name buttons) (map name non_selectable) \<notin> set (map name buttons)"
    by simp_all
  show "select buttons (Some non_selectable) on_render print_selected cutie_select press w =
            (Inl (NotInList (first_missing (map name buttons) (map name non_selectable))),
             emit on_render w)"
    by (simp add: select_def resolve_indices_missing [OF nsub] Let_def)
qed

theorem select_resolves_first_occurrence_or_fails_witness:
  "set (map name [\<lparr>name = ascii ''B'', action = ascii ''b2''\<rparr>])
     \<subseteq> set (map name [\<lparr>name = ascii ''A'', action = ascii ''a''\<rparr>,
                       \<lparr>name = ascii ''B'', action = ascii ''b1''\<rparr>,
                       \<lparr>name = ascii ''C'', action = ascii ''c''\<rparr>,
                       \<lparr>name = ascii ''B'', action = ascii ''b2''\<rparr>])
   \<and> select [\<lparr>name = ascii ''A'', action = ascii ''a''\<rparr>,
             \<lparr>name = ascii ''B'', action = ascii ''b1''\<rparr>,
             \<lparr>name = ascii ''C'', action = ascii ''c''\<rparr>,
             \<lparr>name = ascii ''B'', action = ascii ''b2''\<rparr>]
        (Some [\<lparr>name = ascii ''B'', action = ascii ''b2''\<rparr>]) [Clear] False (always 2)
        record_press \<lparr>console = [], stdin = [], cwd = []\<rparr> =
      (Inr (),
       \<lparr>console = [Clear, Select [ascii ''A'', ascii ''B'', ascii ''C'', ascii ''B''] (Some [1]),
                   Custom (ascii ''c'')],
        stdin = [], cwd = []\<rparr>)
   \<and> \<not> set (map name [\<lparr>name = ascii ''D'', action = ascii ''d''\<rparr>])
        \<subseteq> set (map name [\<lparr>name = ascii ''A'', action = ascii ''a''\<rparr>])
   \<and> select [\<lparr>name = ascii ''A'', action = ascii ''a''\<rparr>]
        (Some [\<lparr>name = ascii ''D'', action = ascii ''d''\<rparr>]) [Clear] False (always 0)
        record_press \<lparr>console = [], stdin = [], cwd = []\<rparr> =
      (Inl (NotInList (ascii ''D'')), \<lparr>console = [Clear], stdin = [], cwd = []\<rparr>)"
  using
    select_resolves_first_occurrence_or_fails
      [of "[\<lparr>name = ascii ''B'', action = ascii ''b2''\<rparr>]"
          "[\<lparr>name = ascii ''A'', action = ascii ''a''\<rparr>, \<lparr>name = ascii ''B'', action = ascii ''b1''\<rparr>,
            \<lparr>name = ascii ''C'', action = ascii ''c''\<rparr>, \<lparr>name = ascii ''B'', action = ascii ''b2''\<rparr>]"
          "[Clear]" False "always 2" record_press "\<lparr>console = [], stdin = [], cwd = []\<rparr>"]
    select_resolves_first_occurrence_or_fails
      [of "[\<lparr>name = ascii ''D'', action = ascii ''d''\<rparr>]"
          "[\<lparr>name = ascii ''A'', action = ascii ''a''\<rparr>]"
          "[Clear]" False "always 0" record_press "\<lparr>console = [], stdin = [], cwd = []\<rparr>"]
  by (simp add: first_index_def first_missing_def emit_def ascii_def always_def record_press_def)

section \<open>Properties of the removal actions\<close>

lemma map_of_filter_other:
  "g \<noteq> f \<Longrightarrow> map_of (filter (\<lambda>e. fst e \<noteq> f) ps) g = map_of ps g"
  by (induction ps) auto

lemma rm_files_loop_removes:
  "distinct files \<Longrightarrow> \<forall>f\<in>set files. map_of (cwd w) f = Some RegularFile \<Longrightarrow>
   rm_files_loop files removed w =
     (Inr removed, w\<lparr>cwd := filter (\<lambda>e. fst e \<notin> set files) (cwd w)\<rparr>)"
proof (induction files arbitrary: w)
  case Nil
  then show ?case by simp
next
  case (Cons f files)
  let ?w = "w\<lparr>cwd := filter (\<lambda>e. fst e \<noteq> f) (cwd w)\<rparr>"
  from Cons.prems have rm: "os_remove f w = (Inr (), ?w)"
    by (simp add: os_remove_def)
  from Cons.prems have d: "distinct files" and nf: "f \<notin> set files" by simp_all
  have "\<forall>g\<in>set files. map_of (cwd ?w) g = Some RegularFile"
  proof
    fix g assume g: "g \<in> set files"
    with nf have "g \<noteq> f" by auto
    then have "map_of (cwd ?w) g = map_of (cwd w) g" by (simp add: map_of_filter_other)
    with Cons.prems g show "map_of (cwd ?w) g = Some RegularFile" by simp
  qed
  from Cons.IH [OF d this]
  have "rm_files_loop files removed ?w =
          (Inr removed, ?w\<lparr>cwd := filter (\<lambda>e. fst e \<notin> set files) (cwd ?w)\<rparr>)" .
  moreover have "filter (\<lambda>e. fst e \<notin> set files) (filter (\<lambda>e. fst e \<noteq> f) (cwd w)) =
                 filter (\<lambda>e. fst e \<notin> set (f # files)) (cwd w)"
    by (auto intro: filter_cong)
  ultimately show ?case using rm by simp
qed

lemma files_in_cwd_with_one_ext:
  "files_in_cwd_with_exts [ext] w =
     filter (\<lambda>f. os_path_isfile w f \<and> endswith f (ascii ''.'' @ ext)) (os_listdir w)"
  by (simp add: files_in_cwd_with_exts_def)

lemma map_of_distinct_entry:
  "distinct (map fst ps) \<Longrightarrow> e \<in> set ps \<Longrightarrow> map_of ps (fst e) = Some (snd e)"
  by (cases e) simp

text \<open>
  C3. Whatever extension the user enters, \<open>rm_files_by_extension\<close> selects the regular
  files of the working directory whose name ends in \<open>.ext\<close>, the placeholder written in
  the code: in a directory whose names are distinct it removes exactly those, and its
  result does not depend on its argument.
\<close>

theorem rm_files_by_extension_ignores_argument:
  assumes "distinct (map fst (cwd w))"
  shows "rm_files_by_extension ext w =
           (Inr (),
            w\<lparr>cwd := filter (\<lambda>e. \<not> (snd e = RegularFile \<and> endswith (fst e) (ascii ''.ext'')))
                         (cwd w)\<rparr>)
         \<and> rm_files_by_extension ext w = rm_files_by_extension ext' w"
proof -
  let ?P = "\<lambda>f. os_path_isfile w f \<and> endswith f (ascii ''.'' @ ascii ''ext'')"
  let ?files = "filter ?P (os_listdir w)"
  have d: "distinct ?files" using assms by (simp add: os_listdir_def)
  have ex: "\<forall>f\<in>set ?files. map_of (cwd w) f = Some RegularFile"
    by (simp add: os_path_isfile_def)
  have dot: "ascii ''.'' @ ascii ''ext'' = ascii ''.ext''" by (simp add: ascii_def)
  have "filter (\<lambda>e. fst e \<notin> set ?files) (cwd w) =
        filter (\<lambda>e. \<not> (snd e = RegularFile \<and> endswith (fst e) (ascii ''.ext''))) (cwd w)"
  proof (rule filter_cong [OF refl])
    fix e assume e: "e \<in> set (cwd w)"
    then have "fst e \<in> set (os_listdir w)" by (auto simp: os_listdir_def)
    moreover have "map_of (cwd w) (fst e) = Some (snd e)"
      using assms e by (rule map_of_distinct_entry)
    ultimately show "(fst e \<notin> set ?files) =
                     (\<not> (snd e = RegularFile \<and> endswith (fst e) (ascii ''.ext'')))"
      by (simp add: os_path_isfile_def dot)
  qed
  with rm_files_loop_removes [OF d ex, of "[]"]
  have "rm_files_by_extension ext w =
           (Inr (),
            w\<lparr>cwd := filter (\<lambda>e. \<not> (snd e = RegularFile \<and> endswith (fst e) (ascii ''.ext'')))
                         (cwd w)\<rparr>)"
    by (simp add: rm_files_by_extension_def rm_files_def files_in_cwd_with_one_ext
          report_removed_def)
  moreover have "rm_files_by_extension ext w = rm_files_by_extension ext' w"
    by (simp add: rm_files_by_extension_def)
  ultimately show ?thesis by simp
qed

theorem rm_files_by_extension_ignores_argument_witness:
  "distinct (map fst (cwd \<lparr>console = [], stdin = [],
      cwd = [(ascii ''a.ext'', RegularFile), (ascii ''b.txt'', RegularFile),
             (ascii ''c.ext'', Directory)]\<rparr>))
   \<and> rm_files_by_extension (ascii ''txt'')
       \<lparr>console = [], stdin = [],
        cwd = [(ascii ''a.ext'', RegularFile), (ascii ''b.txt'', RegularFile),
               (ascii ''c.ext'', Directory)]\<rparr> =
      (Inr (), \<lparr>console = [], stdin = [],
                cwd = [(ascii ''b.txt'', RegularFile), (ascii ''c.ext'', Directory)]\<rparr>)"
proof -
  let ?w = "\<lparr>console = [], stdin = [],
      cwd = [(ascii ''a.ext'', RegularFile), (ascii ''b.txt'', RegularFile),
             (ascii ''c.ext'', Directory)]\<rparr>"
  have d: "distinct (map fst (cwd ?w))" by (simp add: ascii_def)
  have e: "endswith (ascii ''a.ext'') (ascii ''.ext'')"
    "\<not> endswith (ascii ''b.txt'') (ascii ''.ext'')"
    by (simp_all add: endswith_def ascii_def)
  from d rm_files_by_extension_ignores_argument [OF d, of "ascii ''txt''" "ascii ''txt''"]
  show ?thesis by (simp add: e)
qed

lemma draft_contains:
  "contains (ascii ''draft1.txt'') (ascii ''draft'')"
  "\<not> contains (ascii ''notes.txt'') (ascii ''draft'')"
  by (simp_all add: ascii_def)

lemma os_remove_console: "console (snd (os_remove f w)) = console w"
  by (simp add: os_remove_def split: option.splits kind.splits)

lemma rm_files_loop_result:
  "fst (rm_files_loop files removed w) = Inr r \<Longrightarrow> r = removed"
proof (induction files arbitrary: w)
  case Nil
  then show ?case by simp
next
  case (Cons f files)
  then show ?case
    by (cases "os_remove f w") (auto split: sum.splits)
qed

lemma rm_files_loop_console:
  "console (snd (rm_files_loop files removed w)) = console w"
proof (induction files arbitrary: w)
  case Nil
  then show ?case by simp
next
  case (Cons f files)
  show ?case
  proof (cases "os_remove f w")
    case (Pair r w1)
    with os_remove_console [of f w] have c: "console w1 = console w" by simp
    show ?thesis
    proof (cases r)
      case (Inl e)
      with Pair c show ?thesis by simp
    next
      case (Inr u)
      with Pair c Cons.IH [of w1] show ?thesis by simp
    qed
  qed
qed

text \<open>
  Since \<open>rm_files\<close> returns the list \<open>removed\<close> as it created it, the loop over its result
  has nothing to report: \<open>rm_files_contains\<close> never prints, whatever it removes.
\<close>

lemma rm_files_contains_silent:
  "console (snd (rm_files_contains s files w)) = console w"
proof (cases "rm_files_loop (filter (\<lambda>f. contains f s) files) [] w")
  case (Pair r w1)
  with rm_files_loop_console [of "filter (\<lambda>f. contains f s) files" "[]" w]
  have c: "console w1 = console w" by simp
  show ?thesis
  proof (cases r)
    case (Inl e)
    with Pair c show ?thesis by (simp add: rm_files_contains_def rm_files_def report_removed_def)
  next
    case (Inr removed)
    with Pair rm_files_loop_result [of "filter (\<lambda>f. contains f s) files" "[]" w removed]
    have "removed = []" by simp
    with Inr Pair c show ?thesis
      by (simp add: rm_files_contains_def rm_files_def report_removed_def)
  qed
qed

text \<open>
  C1. The scenario of the claim, run on the code: the directory holds \<open>draft1.txt\<close> and
  \<open>notes.txt\<close>, the user picks the third button and types an empty line, then \<open>draft\<close>.
  The empty line is rejected, \<open>draft\<close> is accepted and \<open>draft1.txt\<close> is removed, but no
  confirmation line follows: one file removed, no message printed.
\<close>

theorem rm_files_group_contains_prints_no_confirmation:
  "rm_files_group (always 2)
     \<lparr>console = [], stdin = [[], ascii ''draft''],
      cwd = [(ascii ''draft1.txt'', RegularFile), (ascii ''notes.txt'', RegularFile)]\<rparr> =
   (Inr (),
    \<lparr>console =
       [Print msg_files_here, Print [], Clear,
        Select [msg_rm_startswith, msg_rm_endswith, msg_rm_contains, msg_rm_by_extension, msg_exit]
          None,
        Prompt (msg_enter_substring @ ascii '': ''), Validate 0 [], Print msg_not_empty,
        Prompt (msg_enter_substring @ ascii '': ''), Validate 0 (ascii ''draft'')],
     stdin = [],
     cwd = [(ascii ''notes.txt'', RegularFile)]\<rparr>)"
proof -
  let ?cwd = "[(ascii ''draft1.txt'', RegularFile), (ascii ''notes.txt'', RegularFile)]"
  let ?files = "[ascii ''draft1.txt'', ascii ''notes.txt'']"
  let ?menu = "[Print msg_files_here, Print [], Clear,
        Select [msg_rm_startswith, msg_rm_endswith, msg_rm_contains, msg_rm_by_extension, msg_exit]
          None]"
  let ?w1 = "\<lparr>console = ?menu, stdin = [[], ascii ''draft''], cwd = ?cwd\<rparr>"
  let ?w2 = "\<lparr>console = [Print msg_files_here, Print [], Clear,
        Select [msg_rm_startswith, msg_rm_endswith, msg_rm_contains, msg_rm_by_extension, msg_exit]
          None,
        Prompt (msg_enter_substring @ ascii '': ''), Validate 0 [], Print msg_not_empty],
              stdin = [ascii ''draft''], cwd = ?cwd\<rparr>"
  let ?w3 = "\<lparr>console = [Print msg_files_here, Print [], Clear,
        Select [msg_rm_startswith, msg_rm_endswith, msg_rm_contains, msg_rm_by_extension, msg_exit]
          None,
        Prompt (msg_enter_substring @ ascii '': ''), Validate 0 [], Print msg_not_empty,
        Prompt (msg_enter_substring @ ascii '': ''), Validate 0 (ascii ''draft'')],
              stdin = [], cwd = ?cwd\<rparr>"
  have ne: "ascii ''draft1.txt'' \<noteq> ascii ''notes.txt''"
    "ascii ''notes.txt'' \<noteq> ascii ''draft1.txt''"
    by (simp_all add: ascii_def)
  have fl: "file_list [] \<lparr>console = [], stdin = [[], ascii ''draft''], cwd = ?cwd\<rparr> =
            (?files, \<lparr>console = [Print msg_files_here, Print []],
                      stdin = [[], ascii ''draft''], cwd = ?cwd\<rparr>)"
    using ne by (simp add: file_list_def os_listdir_def os_path_isfile_def emit_def)
  have menu: "rm_files_group (always 2)
                \<lparr>console = [], stdin = [[], ascii ''draft''], cwd = ?cwd\<rparr> =
              call_group ?files ContainsLambda ?w1"
    by (simp add: rm_files_group_def fl select_def always_def emit_def)
  have "validated_input msg_enter_substring [not_empty] [] ?w1 =
        validated_input msg_enter_substring [not_empty] [] ?w2"
    using validated_input_rejects
      [of ?w1 "[]" "[ascii ''draft'']" "[not_empty]" msg_enter_substring "[]"]
    by (simp add: not_empty_conforms not_empty_messages rejected_attempt_def calls_def)
  also have "\<dots> = (Inr (ascii ''draft''), ?w3)"
    using validated_input_accepts
      [of ?w2 "ascii ''draft''" "[]" "[not_empty]" msg_enter_substring "[]"]
    by (simp add: not_empty_conforms not_empty_messages calls_def)
  finally have inp:
    "validated_input msg_enter_substring [not_empty] [] ?w1 = (Inr (ascii ''draft''), ?w3)" .
  have rm: "rm_files_contains (ascii ''draft'') ?files ?w3 =
            (Inr (), ?w3\<lparr>cwd := [(ascii ''notes.txt'', RegularFile)]\<rparr>)"
    by (simp add: rm_files_contains_def rm_files_def draft_contains os_remove_def ne
          report_removed_def)
  show ?thesis
    by (simp add: menu inp rm)
qed

section \<open>Properties of the conversion menus\<close>

lemma file_buttons_eq:
  "file_buttons lam files scope buttons =
     (buttons @ map (\<lambda>f. \<lparr>name = f, action = lam\<rparr>) files,
      if files = [] then scope else Some (last files))"
  by (induction files arbitrary: scope buttons) auto

lemma files_in_cwd_with_exts_console:
  "files_in_cwd_with_exts exts (w\<lparr>console := c\<rparr>) = files_in_cwd_with_exts exts w"
proof -
  have "files_in_cwd_with_exts_loop exts (w\<lparr>console := c\<rparr>) acc =
        files_in_cwd_with_exts_loop exts w acc" for acc
    by (induction exts arbitrary: acc) (simp_all add: os_path_isfile_def os_listdir_def)
  then show ?thesis by (simp add: files_in_cwd_with_exts_def)
qed

lemma button_names:
  "map (name \<circ> (\<lambda>f. \<lparr>name = f, action = a\<rparr>)) files = files"
  by (induction files) simp_all

lemma distinct_files_in_cwd_with_one_ext:
  "distinct (map fst (cwd w)) \<Longrightarrow> distinct (files_in_cwd_with_exts [ext] w)"
  by (simp add: files_in_cwd_with_one_ext os_listdir_def)

lemma pdf_to_docx_file_button:
  assumes "cutie_select (files_in_cwd_with_exts [ascii ''pdf''] w @ [msg_exit]) None
             < length (files_in_cwd_with_exts [ascii ''pdf''] w)"
  shows "pdf_to_docx cutie_select w =
     (Inr (),
      emit [Clear, Print (msg_files_with_ext @ ascii ''pdf'' @ msg_in_this_dir), Print [],
            Select (files_in_cwd_with_exts [ascii ''pdf''] w @ [msg_exit]) None,
            ToDocx (last (files_in_cwd_with_exts [ascii ''pdf''] w))
              (ascii ''docx_'' @ replace (last (files_in_cwd_with_exts [ascii ''pdf''] w))
                                         (ascii ''.pdf'') (ascii ''.docx''))] w)"
proof -
  from assms have ne: "files_in_cwd_with_exts [ascii ''pdf''] w \<noteq> []" by auto
  show ?thesis
    using assms ne
    by (simp add: pdf_to_docx_def file_list_def files_in_cwd_with_exts_console file_buttons_eq
          select_def Let_def button_names nth_append emit_def)
qed

lemma docx_to_pdf_file_button:
  assumes "cutie_select (files_in_cwd_with_exts [ascii ''docx''] w @ [msg_exit]) None
             < length (files_in_cwd_with_exts [ascii ''docx''] w)"
  shows "docx_to_pdf cutie_select w =
     (Inr (),
      emit [Clear, Print (msg_files_with_ext @ ascii ''docx'' @ msg_in_this_dir), Print [],
            Select (files_in_cwd_with_exts [ascii ''docx''] w @ [msg_exit]) None,
            ToPdf (last (files_in_cwd_with_exts [ascii ''docx''] w))
              (ascii ''pdf_'' @ replace (last (files_in_cwd_with_exts [ascii ''docx''] w))
                                        (ascii ''.docx'') (ascii ''.pdf''))] w)"
proof -
  from assms have ne: "files_in_cwd_with_exts [ascii ''docx''] w \<noteq> []" by auto
  show ?thesis
    using assms ne
    by (simp add: docx_to_pdf_def file_list_def files_in_cwd_with_exts_console file_buttons_eq
          select_def Let_def button_names nth_append emit_def)
qed

lemma not_last_of_distinct:
  "distinct xs \<Longrightarrow> Suc i < length xs \<Longrightarrow> xs ! i \<noteq> last xs"
proof -
  assume d: "distinct xs" and i: "Suc i < length xs"
  then have "xs \<noteq> []" by auto
  then have "last xs = xs ! (length xs - 1)" by (rule last_conv_nth)
  moreover from d i have "xs ! i \<noteq> xs ! (length xs - 1)"
    by (simp add: nth_eq_iff_index_eq)
  ultimately show ?thesis by simp
qed

lemma two_pdfs:
  "files_in_cwd_with_exts [ascii ''pdf'']
     \<lparr>console = [], stdin = [],
      cwd = [(ascii ''a.pdf'', RegularFile), (ascii ''b.pdf'', RegularFile)]\<rparr>
   = [ascii ''a.pdf'', ascii ''b.pdf'']"
  by (simp add: files_in_cwd_with_one_ext os_listdir_def os_path_isfile_def endswith_def ascii_def)

lemma two_docxs:
  "files_in_cwd_with_exts [ascii ''docx'']
     \<lparr>console = [], stdin = [],
      cwd = [(ascii ''a.docx'', RegularFile), (ascii ''b.docx'', RegularFile)]\<rparr>
   = [ascii ''a.docx'', ascii ''b.docx'']"
  by (simp add: files_in_cwd_with_one_ext os_listdir_def os_path_isfile_def endswith_def ascii_def)

lemma replace_examples:
  "replace (ascii ''b.pdf'') (ascii ''.pdf'') (ascii ''.docx'') = ascii ''b.docx''"
  "replace (ascii ''b.docx'') (ascii ''.docx'') (ascii ''.pdf'') = ascii ''b.pdf''"
  by (simp_all add: replace_def ascii_def)

lemma docx_name: "ascii ''docx_'' @ ascii ''b.docx'' = ascii ''docx_b.docx''"
  by (simp add: ascii_def)

lemma pdf_name: "ascii ''pdf_'' @ ascii ''b.pdf'' = ascii ''pdf_b.pdf''"
  by (simp add: ascii_def)

text \<open>
  C10, as the claim states it, fails for the last file's button: with the files \<open>a.pdf\<close>
  and \<open>b.pdf\<close> listed, pressing the second button, which shows \<open>b.pdf\<close>, converts
  \<open>b.pdf\<close>, the file whose name is on the pressed button.
\<close>

theorem pdf_to_docx_last_button_converts_own_file:
  "(files_in_cwd_with_exts [ascii ''pdf'']
      \<lparr>console = [], stdin = [],
       cwd = [(ascii ''a.pdf'', RegularFile), (ascii ''b.pdf'', RegularFile)]\<rparr> @ [msg_exit]) ! 1
     = ascii ''b.pdf''
   \<and> pdf_to_docx (always 1)
       \<lparr>console = [], stdin = [],
        cwd = [(ascii ''a.pdf'', RegularFile), (ascii ''b.pdf'', RegularFile)]\<rparr> =
     (Inr (),
      \<lparr>console = [Clear, Print (msg_files_with_ext @ ascii ''pdf'' @ msg_in_this_dir), Print [],
                  Select [ascii ''a.pdf'', ascii ''b.pdf'', msg_exit] None,
                  ToDocx (ascii ''b.pdf'') (ascii ''docx_b.docx'')],
       stdin = [],
       cwd = [(ascii ''a.pdf'', RegularFile), (ascii ''b.pdf'', RegularFile)]\<rparr>)"
proof -
  let ?w = "\<lparr>console = [], stdin = [],
             cwd = [(ascii ''a.pdf'', RegularFile), (ascii ''b.pdf'', RegularFile)]\<rparr>"
  have "always 1 (files_in_cwd_with_exts [ascii ''pdf''] ?w @ [msg_exit]) None
          < length (files_in_cwd_with_exts [ascii ''pdf''] ?w)"
    by (simp add: two_pdfs always_def)
  with pdf_to_docx_file_button [of "always 1" ?w] have
    "pdf_to_docx (always 1) ?w =
       (Inr (), emit [Clear, Print (msg_files_with_ext @ ascii ''pdf'' @ msg_in_this_dir), Print [],
                  Select [ascii ''a.pdf'', ascii ''b.pdf'', msg_exit] None,
                  ToDocx (ascii ''b.pdf'') (ascii ''docx_'' @ ascii ''b.docx'')] ?w)"
    by (simp add: two_pdfs replace_examples)
  then show ?thesis by (simp add: two_pdfs emit_def docx_name)
qed

text \<open>
  C10, amended. In the menus built by \<open>pdf_to_docx\<close> and \<open>docx_to_pdf\<close> every file
  button's action reads the loop variable when it is called, so pressing any file's
  button converts the last file of the list, whichever button was pressed; in a
  directory whose names are distinct, for every button but the last that is not the
  file whose name the pressed button shows.
\<close>

theorem conversion_buttons_convert_last_file:
  "(cutie_select (files_in_cwd_with_exts [ascii ''pdf''] w @ [msg_exit]) None
      < length (files_in_cwd_with_exts [ascii ''pdf''] w) \<longrightarrow>
    pdf_to_docx cutie_select w =
     (Inr (),
      emit [Clear, Print (msg_files_with_ext @ ascii ''pdf'' @ msg_in_this_dir), Print [],
            Select (files_in_cwd_with_exts [ascii ''pdf''] w @ [msg_exit]) None,
            ToDocx (last (files_in_cwd_with_exts [ascii ''pdf''] w))
              (ascii ''docx_'' @ replace (last (files_in_cwd_with_exts [ascii ''pdf''] w))
                                         (ascii ''.pdf'') (ascii ''.docx''))] w))
   \<and> (cutie_select (files_in_cwd_with_exts [ascii ''docx''] w @ [msg_exit]) None
      < length (files_in_cwd_with_exts [ascii ''docx''] w) \<longrightarrow>
    docx_to_pdf cutie_select w =
     (Inr (),
      emit [Clear, Print (msg_files_with_ext @ ascii ''docx'' @ msg_in_this_dir), Print [],
            Select (files_in_cwd_with_exts [ascii ''docx''] w @ [msg_exit]) None,
            ToPdf (last (files_in_cwd_with_exts [ascii ''docx''] w))
              (ascii ''pdf_'' @ replace (last (files_in_cwd_with_exts [ascii ''docx''] w))
                                        (ascii ''.docx'') (ascii ''.pdf''))] w))
   \<and> (distinct (map fst (cwd w)) \<longrightarrow>
        (\<forall>i. Suc i < length (files_in_cwd_with_exts [ascii ''pdf''] w) \<longrightarrow>
             files_in_cwd_with_exts [ascii ''pdf''] w ! i
               \<noteq> last (files_in_cwd_with_exts [ascii ''pdf''] w))
      \<and> (\<forall>i. Suc i < length (files_in_cwd_with_exts [ascii ''docx''] w) \<longrightarrow>
             files_in_cwd_with_exts [ascii ''docx''] w ! i
               \<noteq> last (files_in_cwd_with_exts [ascii ''docx''] w)))"
  using pdf_to_docx_file_button [of cutie_select w] docx_to_pdf_file_button [of cutie_select w]
    not_last_of_distinct [OF distinct_files_in_cwd_with_one_ext]
  by blast

theorem conversion_buttons_convert_last_file_witness:
  "always 0 (files_in_cwd_with_exts [ascii ''pdf'']
      \<lparr>console = [], stdin = [],
       cwd = [(ascii ''a.pdf'', RegularFile), (ascii ''b.pdf'', RegularFile)]\<rparr> @ [msg_exit]) None
     < length (files_in_cwd_with_exts [ascii ''pdf'']
      \<lparr>console = [], stdin = [],
       cwd = [(ascii ''a.pdf'', RegularFile), (ascii ''b.pdf'', RegularFile)]\<rparr>)
   \<and> distinct (map fst (cwd \<lparr>console = [], stdin = [],
       cwd = [(ascii ''a.pdf'', RegularFile), (ascii ''b.pdf'', RegularFile)]\<rparr>))
   \<and> pdf_to_docx (always 0)
       \<lparr>console = [], stdin = [],
        cwd = [(ascii ''a.pdf'', RegularFile), (ascii ''b.pdf'', RegularFile)]\<rparr> =
     (Inr (),
      \<lparr>console = [Clear, Print (msg_files_with_ext @ ascii ''pdf'' @ msg_in_this_dir), Print [],
                  Select [ascii ''a.pdf'', ascii ''b.pdf'', msg_exit] None,
                  ToDocx (ascii ''b.pdf'') (ascii ''docx_b.docx'')],
       stdin = [],
       cwd = [(ascii ''a.pdf'', RegularFile), (ascii ''b.pdf'', RegularFile)]\<rparr>)
   \<and> ascii ''a.pdf'' \<noteq> ascii ''b.pdf''
   \<and> always 0 (files_in_cwd_with_exts [ascii ''docx'']
      \<lparr>console = [], stdin = [],
       cwd = [(ascii ''a.docx'', RegularFile), (ascii ''b.docx'', RegularFile)]\<rparr> @ [msg_exit]) None
     < length (files_in_cwd_with_exts [ascii ''docx'']
      \<lparr>console = [], stdin = [],
       cwd = [(ascii ''a.docx'', RegularFile), (ascii ''b.docx'', RegularFile)]\<rparr>)
   \<and> docx_to_pdf (always 0)
       \<lparr>console = [], stdin = [],
        cwd = [(ascii ''a.docx'', RegularFile), (ascii ''b.docx'', RegularFile)]\<rparr> =
     (Inr (),
      \<lparr>console = [Clear, Print (msg_files_with_ext @ ascii ''docx'' @ msg_in_this_dir), Print [],
                  Select [ascii ''a.docx'', ascii ''b.docx'', msg_exit] None,
                  ToPdf (ascii ''b.docx'') (ascii ''pdf_b.pdf'')],
       stdin = [],
       cwd = [(ascii ''a.docx'', RegularFile), (ascii ''b.docx'', RegularFile)]\<rparr>)"
proof -
  let ?w = "\<lparr>console = [], stdin = [],
             cwd = [(ascii ''a.pdf'', RegularFile), (ascii ''b.pdf'', RegularFile)]\<rparr>"
  let ?v = "\<lparr>console = [], stdin = [],
             cwd = [(ascii ''a.docx'', RegularFile), (ascii ''b.docx'', RegularFile)]\<rparr>"
  have h: "always 0 (files_in_cwd_with_exts [ascii ''pdf''] ?w @ [msg_exit]) None
          < length (files_in_cwd_with_exts [ascii ''pdf''] ?w)"
    by (simp add: two_pdfs always_def)
  have g: "always 0 (files_in_cwd_with_exts [ascii ''docx''] ?v @ [msg_exit]) None
          < length (files_in_cwd_with_exts [ascii ''docx''] ?v)"
    by (simp add: two_docxs always_def)
  have d: "distinct (map fst (cwd ?w))" by (simp add: ascii_def)
  from conversion_buttons_convert_last_file [of "always 0" ?w] h d
  have "pdf_to_docx (always 0) ?w =
       (Inr (), emit [Clear, Print (msg_files_with_ext @ ascii ''pdf'' @ msg_in_this_dir), Print [],
                  Select [ascii ''a.pdf'', ascii ''b.pdf'', msg_exit] None,
                  ToDocx (ascii ''b.pdf'') (ascii ''docx_'' @ ascii ''b.docx'')] ?w)"
    and "\<forall>i. Suc i < length (files_in_cwd_with_exts [ascii ''pdf''] ?w) \<longrightarrow>
             files_in_cwd_with_exts [ascii ''pdf''] ?w ! i
               \<noteq> last (files_in_cwd_with_exts [ascii ''pdf''] ?w)"
    by (simp_all add: two_pdfs replace_examples)
  then have pdf: "pdf_to_docx (always 0) ?w =
       (Inr (), emit [Clear, Print (msg_files_with_ext @ ascii ''pdf'' @ msg_in_this_dir), Print [],
                  Select [ascii ''a.pdf'', ascii ''b.pdf'', msg_exit] None,
                  ToDocx (ascii ''b.pdf'') (ascii ''docx_b.docx'')] ?w)"
    and ne: "ascii ''a.pdf'' \<noteq> ascii ''b.pdf''"
    by (simp_all add: two_pdfs docx_name)
  from conversion_buttons_convert_last_file [of "always 0" ?v] g
  have docx: "docx_to_pdf (always 0) ?v =
       (Inr (), emit [Clear, Print (msg_files_with_ext @ ascii ''docx'' @ msg_in_this_dir), Print [],
                  Select [ascii ''a.docx'', ascii ''b.docx'', msg_exit] None,
                  ToPdf (ascii ''b.docx'') (ascii ''pdf_b.pdf'')] ?v)"
    by (simp add: two_docxs replace_examples pdf_name)
  from h g d pdf ne docx show ?thesis by (simp add: emit_def)
qed

end
